theory Spec2Isabelle
  imports Main "HOL-Library.Sublist"
begin

section \<open>Python strings\<close>

text \<open>
  A Python \<open>str\<close> is a sequence of code points. The model takes the code points below 256
  (ASCII and Latin-1), one \<^typ>\<open>char\<close> each, so that \<open>len\<close> is \<^const>\<open>length\<close>.
  \<open>str.lower()\<close> maps \<open>A\<close>..\<open>Z\<close> and the Latin-1 capitals (192..214, 216..222) to the
  letter 32 code points above and leaves every other character alone.
\<close>

definition lower_char :: "char \<Rightarrow> char" where
  "lower_char c = (let n = (of_char c :: nat) in
     if (65 \<le> n \<and> n \<le> 90) \<or> (192 \<le> n \<and> n \<le> 214) \<or> (216 \<le> n \<and> n \<le> 222)
     then char_of (n + 32) else c)"

definition lower :: "string \<Rightarrow> string" where
  "lower s = map lower_char s"

text \<open>
  \<open>str.strip()\<close> removes leading and trailing whitespace: the code points 9..13, 28..32,
  133 and 160 are the ones below 256 for which \<open>str.isspace()\<close> holds.
\<close>

definition isspace :: "char \<Rightarrow> bool" where
  "isspace c = (let n = (of_char c :: nat) in
     (9 \<le> n \<and> n \<le> 13) \<or> (28 \<le> n \<and> n \<le> 32) \<or> n = 133 \<or> n = 160)"

definition strip :: "string \<Rightarrow> string" where
  "strip s = rev (dropWhile isspace (rev (dropWhile isspace s)))"

text \<open>The operator \<open>kw in s\<close> on strings: \<open>kw\<close> occurs in \<open>s\<close> as a contiguous run.\<close>

fun py_in :: "string \<Rightarrow> string \<Rightarrow> bool" where
  "py_in kw [] = (kw = [])"
| "py_in kw (c # s) = (prefix kw (c # s) \<or> py_in kw s)"

text \<open>\<open>any(kw in s for kw in kws)\<close>\<close>

definition any_in :: "string list \<Rightarrow> string \<Rightarrow> bool" where
  "any_in kws s = list_ex (\<lambda>kw. py_in kw s) kws"

text \<open>
  The spec's "case-insensitive substring": some contiguous part of the text equals the
  keyword once both are put in lower case.
\<close>

definition occurs_ci :: "string \<Rightarrow> string \<Rightarrow> bool" where
  "occurs_ci kw txt = (\<exists>pre mid post. txt = pre @ mid @ post \<and> lower mid = lower kw)"

section \<open>Triage of a clause (\<open>backend/analyzer.py\<close>, in \<open>analyze_uploaded_file\<close>)\<close>

definition warranty_keywords :: "string list" where
  "warranty_keywords =
     [''warrant'', ''guarantee'', ''assure'', ''promise'', ''liability'', ''disclaim'', ''as-is'']"

text \<open>\<open>has_warranty_terms = any(keyword in clause.lower() for keyword in warranty_keywords)\<close>\<close>

definition has_warranty_terms_of :: "string \<Rightarrow> bool" where
  "has_warranty_terms_of clause = any_in warranty_keywords (lower clause)"

section \<open>The completion service\<close>

text \<open>
  \<open>openai.ChatCompletion.create\<close> is an external call. A request carries the model name, the
  prompt of its single user message and the output bound (the sampling temperature is a
  constant of each call site and is left out). The call either yields the text of
  \<open>response.choices[0].message.content\<close> or raises; the exception classes the source
  tells apart are kept apart, each with its \<open>str(e)\<close>, and \<open>OtherError\<close> is any other
  exception.
\<close>

datatype outcome =
    Content string
  | AuthenticationError string
  | RateLimitError string
  | APIError string
  | OtherError string

record request =
  model :: string
  prompt :: string
  max_tokens :: nat

type_synonym completion = "request \<Rightarrow> outcome"

definition newline :: string where
  "newline = [CHR 0x0A]"

text \<open>\<open>if not openai.api_key\<close>: the key is \<open>None\<close> or the empty string.\<close>

definition key_configured :: "string option \<Rightarrow> bool" where
  "key_configured key = (case key of None \<Rightarrow> False | Some k \<Rightarrow> k \<noteq> [])"

section \<open>Per-clause analysis (\<open>backend/analyzer.py\<close>)\<close>

definition explain_request :: "string \<Rightarrow> request" where
  "explain_request clause =
     \<lparr>model = ''gpt-3.5-turbo'',
      prompt = ''Please explain the meaning of this legal clause in simple language:''
                 @ newline @ newline @ clause,
      max_tokens = 300\<rparr>"

text \<open>
  \<open>analyze_clause_with_openai\<close>: \<open>Inl\<close> is the message of the exception the function
  raises (only the missing key), \<open>Inr\<close> the string it returns.
\<close>

definition analyze_clause_with_openai :: "string option \<Rightarrow> completion \<Rightarrow> string \<Rightarrow> string + string" where
  "analyze_clause_with_openai key create clause =
     (if \<not> key_configured key
      then Inl ''OpenAI API key not configured. Please check your .env file.''
      else Inr (case create (explain_request clause) of
          Content r \<Rightarrow> strip r
        | AuthenticationError e \<Rightarrow> ''Error: Invalid OpenAI API key. Please check your .env file.''
        | RateLimitError e \<Rightarrow>
            ''Error: OpenAI rate limit exceeded. Please try again later or check your account balance.''
        | APIError e \<Rightarrow> ''Error: OpenAI API error - '' @ e
        | OtherError e \<Rightarrow> ''Error analyzing clause: '' @ e))"

definition grantie_request :: "string \<Rightarrow> request" where
  "grantie_request clause =
     \<lparr>model = ''gpt-3.5-turbo'',
      prompt = newline
        @ ''    Analyze this legal clause specifically for warranties, guarantees, and related terms:'' @ newline
        @ ''    '' @ newline
        @ ''    '' @ clause @ newline
        @ ''    '' @ newline
        @ ''    Please identify:'' @ newline
        @ ''    1. Any warranties mentioned (express or implied)'' @ newline
        @ ''    2. Any guarantees provided'' @ newline
        @ ''    3. Limitations or disclaimers'' @ newline
        @ ''    4. Risk level for the recipient (Low/Medium/High)'' @ newline
        @ ''    5. Key terms to watch out for'' @ newline
        @ ''    '' @ newline
        @ ''    Provide a clear, simple explanation suitable for non-lawyers.'' @ newline
        @ ''    '',
      max_tokens = 350\<rparr>"

definition analyze_clause_for_grantie :: "string option \<Rightarrow> completion \<Rightarrow> string \<Rightarrow> string" where
  "analyze_clause_for_grantie key create clause =
     (if \<not> key_configured key
      then ''Error: OpenAI API key not configured.''
      else (case create (grantie_request clause) of
          Content r \<Rightarrow> strip r
        | AuthenticationError e \<Rightarrow> ''Error: Invalid OpenAI API key for Grantie analysis.''
        | RateLimitError e \<Rightarrow> ''Error: OpenAI rate limit exceeded for Grantie analysis.''
        | APIError e \<Rightarrow> ''Error analyzing clause for Grantie: '' @ e
        | OtherError e \<Rightarrow> ''Error analyzing clause for Grantie: '' @ e))"

section \<open>The pipeline (\<open>analyze_uploaded_file\<close>)\<close>

text \<open>
  A result is a Python dict with the keys \<open>clause\<close>, \<open>analysis\<close>, \<open>has_warranty_terms\<close> and
  \<open>grantie_analysis\<close>; a field is \<open>None\<close> when the dict has no such key.
\<close>

record clause_record =
  clause :: "string option"
  analysis :: "string option"
  has_warranty_terms :: "bool option"
  grantie_analysis :: "string option"

text \<open>
  What the function meets outside itself: writing the temporary file (\<open>Some e\<close> when it
  raises), the \<open>docx\<close> library (from the file content to the paragraph texts, or the message of
  its exception), the configured key, and the service, whose answer may depend on how many
  calls came before.
\<close>

record environment =
  tmp_error :: "string option"
  Document :: "string \<Rightarrow> string + string list"
  api_key :: "string option"
  ChatCompletion :: "nat \<Rightarrow> completion"

definition extract_clauses_from_docx :: "string + string list \<Rightarrow> string + string list" where
  "extract_clauses_from_docx doc =
     (case doc of
        Inl e \<Rightarrow> Inl (''Failed to read document: '' @ e)
      | Inr paragraphs \<Rightarrow> Inr (map strip (filter (\<lambda>p. strip p \<noteq> []) paragraphs)))"

text \<open>
  The \<open>for\<close> loop over the clauses. \<open>n\<close> counts the calls to the service made so far,
  \<open>results\<close> is the list the loop appends to; \<open>Inl\<close> is an exception leaving the loop.
\<close>

fun analyze_clauses ::
  "string option \<Rightarrow> (nat \<Rightarrow> completion) \<Rightarrow> nat \<Rightarrow> string list \<Rightarrow> clause_record list
     \<Rightarrow> string + clause_record list" where
  "analyze_clauses key service n [] results = Inr results"
| "analyze_clauses key service n (c # cs) results =
     (if length (strip c) < 10 then analyze_clauses key service n cs results
      else (case analyze_clause_with_openai key (service n) c of
          Inl e \<Rightarrow> Inl e
        | Inr a \<Rightarrow>
            (let result = \<lparr>clause = Some c, analysis = Some a,
                            has_warranty_terms = Some (has_warranty_terms_of c),
                            grantie_analysis = None\<rparr>
             in if has_warranty_terms_of c
                then analyze_clauses key service (n + 2) cs
                       (results @ [result\<lparr>grantie_analysis :=
                           Some (analyze_clause_for_grantie key (service (n + 1)) c)\<rparr>])
                else analyze_clauses key service (n + 1) cs (results @ [result]))))"

definition error_result :: "string \<Rightarrow> clause_record list" where
  "error_result e =
     [\<lparr>clause = Some ''Error processing document'',
       analysis = Some (''Failed to analyze document: '' @ e),
       has_warranty_terms = Some False,
       grantie_analysis = None\<rparr>]"

definition analyze_uploaded_file :: "environment \<Rightarrow> string \<Rightarrow> string \<Rightarrow> clause_record list" where
  "analyze_uploaded_file env filename file_content =
     (case tmp_error env of
        Some e \<Rightarrow> error_result e
      | None \<Rightarrow>
         (case extract_clauses_from_docx (Document env file_content) of
            Inl e \<Rightarrow> error_result e
          | Inr clauses \<Rightarrow>
              if clauses = [] then error_result ''No readable content found in the document''
              else (case analyze_clauses (api_key env) (ChatCompletion env) 0 clauses [] of
                  Inl e \<Rightarrow> error_result e
                | Inr results \<Rightarrow> results)))"

section \<open>Document-level warranty analysis (\<open>backend/logic/grantie.py\<close>)\<close>

definition document_request :: "string \<Rightarrow> request" where
  "document_request txt =
     \<lparr>model = ''gpt-3.5-turbo'',
      prompt = newline
        @ ''    Analyze the following legal document text for warranties, guarantees, and related terms:'' @ newline
        @ newline
        @ ''    '' @ txt @ newline
        @ newline
        @ ''    Please provide:'' @ newline
        @ ''    1. Summary of all warranties found'' @ newline
        @ ''    2. Summary of all guarantees found'' @ newline
        @ ''    3. Any disclaimers or limitations'' @ newline
        @ ''    4. Overall risk assessment (High/Medium/Low)'' @ newline
        @ ''    5. Key recommendations for the document recipient'' @ newline
        @ newline
        @ ''    Format your response as a detailed analysis.'' @ newline
        @ ''    '',
      max_tokens = 500\<rparr>"

definition high_risk_keywords :: "string list" where
  "high_risk_keywords = [''disclaim'', ''as-is'', ''no warranty'', ''liability'', ''limitation'']"

definition medium_risk_keywords :: "string list" where
  "medium_risk_keywords = [''limited warranty'', ''conditional'', ''subject to'']"

text \<open>
  The risk assessment of the success path: \<open>risk_level\<close> starts as \<open>"Low"\<close>, the \<open>if\<close>
  sets \<open>"High"\<close>, the \<open>elif\<close> sets \<open>"Medium"\<close>.
\<close>

definition risk_level_of :: "string \<Rightarrow> string" where
  "risk_level_of txt =
     (if any_in high_risk_keywords (lower txt) then ''High''
      else if any_in medium_risk_keywords (lower txt) then ''Medium''
      else ''Low'')"

text \<open>The dict under the key \<open>summary\<close>, and the dict the function returns (\<open>analysis_text\<close>
  is its key \<open>analysis\<close>).\<close>

record risk_summary =
  has_warranties :: bool
  has_guarantees :: bool
  risk_level :: string

record warranty_report =
  analysis_text :: string
  summary :: risk_summary

text \<open>\<open>str(e)\<close> of the exception a failed call raises.\<close>

fun exception_message :: "outcome \<Rightarrow> string" where
  "exception_message (Content r) = []"
| "exception_message (AuthenticationError e) = e"
| "exception_message (RateLimitError e) = e"
| "exception_message (APIError e) = e"
| "exception_message (OtherError e) = e"

definition analyze_warranties_and_guarantees :: "completion \<Rightarrow> string \<Rightarrow> warranty_report" where
  "analyze_warranties_and_guarantees create txt =
     (case create (document_request txt) of
        Content r \<Rightarrow>
          \<lparr>analysis_text = strip r,
           summary = \<lparr>has_warranties = any_in [''warrant'', ''warranty'', ''guaranteed''] (lower txt),
                      has_guarantees = any_in [''guarantee'', ''assure'', ''promise''] (lower txt),
                      risk_level = risk_level_of txt\<rparr>\<rparr>
      | failure \<Rightarrow>
          \<lparr>analysis_text = ''Error analyzing warranties and guarantees: '' @ exception_message failure,
           summary = \<lparr>has_warranties = False, has_guarantees = False, risk_level = ''Unknown''\<rparr>\<rparr>)"

section \<open>Compliance heuristics (\<open>check_warranty_compliance\<close>)\<close>

record compliance_report =
  compliance_issues :: "string list"
  recommendations :: "string list"
  total_issues :: nat

text \<open>\<open>clause.get("has_warranty_terms", False)\<close> and \<open>clause.get("clause", "").lower()\<close>\<close>

definition flagged :: "clause_record \<Rightarrow> bool" where
  "flagged c = (case has_warranty_terms c of None \<Rightarrow> False | Some b \<Rightarrow> b)"

definition clause_text :: "clause_record \<Rightarrow> string" where
  "clause_text c = lower (case clause c of None \<Rightarrow> [] | Some s \<Rightarrow> s)"

definition vague_issue :: string where
  "vague_issue = ''Vague warranty terms found - consider more specific language''"

definition notice_issue :: string where
  "notice_issue = ''Warranty disclaimer may lack proper notice requirements''"

definition time_limit_recommendation :: string where
  "time_limit_recommendation = ''Consider adding specific time limits for warranty coverage''"

definition consistency_recommendation :: string where
  "consistency_recommendation =
     ''Multiple warranty clauses found - ensure consistency across all terms''"

text \<open>The loop over \<open>warranty_clauses\<close>, with the two lists it appends to.\<close>

fun compliance_loop ::
  "clause_record list \<Rightarrow> string list \<Rightarrow> string list \<Rightarrow> string list \<times> string list" where
  "compliance_loop [] issues recs = (issues, recs)"
| "compliance_loop (c # cs) issues recs =
     (let t = clause_text c;
          issues1 = (if any_in [''reasonable'', ''satisfactory'', ''appropriate''] t
                     then issues @ [vague_issue] else issues);
          issues2 = (if py_in ''disclaim'' t \<and> \<not> py_in ''notice'' t
                     then issues1 @ [notice_issue] else issues1);
          recs1 = (if py_in ''warranty'' t \<and> \<not> any_in [''days'', ''months'', ''years'', ''period''] t
                   then recs @ [time_limit_recommendation] else recs)
      in compliance_loop cs issues2 recs1)"

definition check_warranty_compliance :: "clause_record list \<Rightarrow> compliance_report" where
  "check_warranty_compliance clauses =
     (let warranty_clauses = filter flagged clauses in
      if warranty_clauses = []
      then \<lparr>compliance_issues = [],
            recommendations = [''Consider adding clear warranty terms for transparency''],
            total_issues = 0\<rparr>
      else (case compliance_loop warranty_clauses [] [] of
          (issues, recs) \<Rightarrow>
            \<lparr>compliance_issues = issues,
             recommendations = (if length warranty_clauses > 3
                                then recs @ [consistency_recommendation] else recs),
             total_issues = length issues\<rparr>))"

section \<open>Speech synthesis (\<open>backend/logic/tts.py\<close>, \<open>main.py\<close>, \<open>frontend/app.py\<close>)\<close>

text \<open>
  The request \<open>requests.post\<close> sends to the speech service (the two voice settings are
  constants and left out; \<open>request_text\<close> is the payload's key \<open>text\<close>) and its response. A function that talks to the service returns,
  beside its result, the list of requests it sent.
\<close>

record tts_request =
  url :: string
  xi_api_key :: string
  request_text :: string

record tts_response =
  status_code :: nat
  response_text :: string

type_synonym speech_service = "tts_request \<Rightarrow> tts_response"

text \<open>\<open>str\<close> of a status code: its decimal digits.\<close>

fun str_nat :: "nat \<Rightarrow> string" where
  "str_nat n =
     (if n < 10 then [char_of (48 + n)]
      else str_nat (n div 10) @ [char_of (48 + n mod 10)])"

declare str_nat.simps [simp del]

definition text_to_speech ::
  "string option \<Rightarrow> speech_service \<Rightarrow> string \<Rightarrow> string \<Rightarrow> (string + string) \<times> tts_request list" where
  "text_to_speech elevenlabs_key post txt output_file =
     (case elevenlabs_key of
        None \<Rightarrow> (Inl ''Missing ELEVENLABS_API_KEY in .env'', [])
      | Some k \<Rightarrow>
          if k = [] then (Inl ''Missing ELEVENLABS_API_KEY in .env'', [])
          else (let req = \<lparr>url = ''https://api.elevenlabs.io/v1/text-to-speech/Rachel'',
                            xi_api_key = k, request_text = txt\<rparr>;
                    response = post req
                in if status_code response = 200 then (Inr output_file, [req])
                   else (Inl (''TTS failed: '' @ str_nat (status_code response) @ '' - ''
                          @ response_text response), [req])))"

text \<open>What the endpoint answers: the JSON \<open>{"error": ...}\<close> or the audio file.\<close>

datatype speak_response = Error_json string | FileResponse string

text \<open>
  \<open>POST /speak/\<close>. \<open>payload_text\<close> is the payload's key \<open>text\<close> (\<open>None\<close> when missing),
  \<open>tmp_audio\<close> the name of the temporary file, or the message of the exception raised when
  it cannot be created.
\<close>

definition text_to_speech_endpoint ::
  "string option \<Rightarrow> speech_service \<Rightarrow> string + string \<Rightarrow> string option
     \<Rightarrow> speak_response \<times> tts_request list" where
  "text_to_speech_endpoint elevenlabs_key post tmp_audio payload_text =
     (let txt = (case payload_text of None \<Rightarrow> [] | Some t \<Rightarrow> t) in
      if txt = [] then (Error_json ''No text provided for TTS'', [])
      else (case tmp_audio of
          Inl e \<Rightarrow> (Error_json (''TTS generation failed: '' @ e), [])
        | Inr name \<Rightarrow>
            (case text_to_speech elevenlabs_key post txt name of
               (Inl e, sent) \<Rightarrow> (Error_json (''TTS generation failed: '' @ e), sent)
             | (Inr audio_path, sent) \<Rightarrow> (FileResponse audio_path, sent))))"

text \<open>The frontend's \<open>play_audio\<close> posts \<open>{"text": text[:500]}\<close> to the endpoint.\<close>

definition play_audio ::
  "string option \<Rightarrow> speech_service \<Rightarrow> string + string \<Rightarrow> string
     \<Rightarrow> speak_response \<times> tts_request list" where
  "play_audio elevenlabs_key post tmp_audio txt =
     text_to_speech_endpoint elevenlabs_key post tmp_audio (Some (take 500 txt))"

section \<open>Vocabulary of the claims\<close>

text \<open>The clauses that pass the length filter of the loop, in document order.\<close>

definition survivors :: "string list \<Rightarrow> string list" where
  "survivors clauses = filter (\<lambda>c. \<not> length (strip c) < 10) clauses"

text \<open>
  The number of calls to the service the loop makes for a list of clauses when nothing
  raises: one per surviving clause, and one more when the clause is flagged.
\<close>

fun service_calls :: "string list \<Rightarrow> nat" where
  "service_calls [] = 0"
| "service_calls (c # cs) =
     (if length (strip c) < 10 then 0 else if has_warranty_terms_of c then 2 else 1)
     + service_calls cs"

text \<open>
  The shape of a record of the result: it has the keys \<open>clause\<close>, \<open>analysis\<close> and
  \<open>has_warranty_terms\<close>, the flag is the triage of the clause text, and the key
  \<open>grantie_analysis\<close> is there exactly when the flag is true.
\<close>

definition record_shape :: "clause_record \<Rightarrow> bool" where
  "record_shape r =
     (case (clause r, analysis r, has_warranty_terms r) of
        (Some c, Some a, Some b) \<Rightarrow>
          b = has_warranty_terms_of c \<and> (grantie_analysis r \<noteq> None) = b
      | _ \<Rightarrow> False)"

text \<open>The failure classes of a call, and the prefix of the message returned for each.\<close>

datatype failure_class = Success | Authentication | RateLimit | ApiFailure | Other

fun class_of :: "outcome \<Rightarrow> failure_class" where
  "class_of (Content r) = Success"
| "class_of (AuthenticationError e) = Authentication"
| "class_of (RateLimitError e) = RateLimit"
| "class_of (APIError e) = ApiFailure"
| "class_of (OtherError e) = Other"

fun class_prefix :: "failure_class \<Rightarrow> string" where
  "class_prefix Success = []"
| "class_prefix Authentication = ''Error: Invalid OpenAI API key''"
| "class_prefix RateLimit = ''Error: OpenAI rate limit exceeded''"
| "class_prefix ApiFailure = ''Error: OpenAI API error - ''"
| "class_prefix Other = ''Error analyzing clause: ''"

text \<open>The recommendations the compliance loop adds for one clause.\<close>

definition clause_recommendations :: "clause_record \<Rightarrow> string list" where
  "clause_recommendations c =
     (if py_in ''warranty'' (clause_text c)
         \<and> \<not> any_in [''days'', ''months'', ''years'', ''period''] (clause_text c)
      then [time_limit_recommendation] else [])"

section \<open>Sample inputs\<close>

text \<open>A service whose third call is refused for authentication.\<close>

definition sample_service :: "nat \<Rightarrow> completion" where
  "sample_service n req =
     (if n = 2 then AuthenticationError ''Incorrect API key provided''
      else Content ''  A plain-language explanation. '')"

definition sample_paragraphs :: "string list" where
  "sample_paragraphs =
     [''The Seller warrants the goods for 12 months.'', ''Page 2'', ''   '',
      ''The Buyer shall pay within 30 days.'']"

definition sample_env :: environment where
  "sample_env =
     \<lparr>tmp_error = None, Document = (\<lambda>file_content. Inr sample_paragraphs),
      api_key = Some ''sk-test'', ChatCompletion = sample_service\<rparr>"

text \<open>The same document with no key configured.\<close>

definition no_key_env :: environment where
  "no_key_env = sample_env\<lparr>api_key := None\<rparr>"

text \<open>A document whose paragraphs are all shorter than ten characters, and a blank one.\<close>

definition short_document_env :: environment where
  "short_document_env = sample_env\<lparr>Document := (\<lambda>file_content. Inr [''Hi'', ''  '', ''Page 2''])\<rparr>"

definition blank_document_env :: environment where
  "blank_document_env = sample_env\<lparr>Document := (\<lambda>file_content. Inr [''  '', []])\<rparr>"

text \<open>Two services that answer every request, with different texts.\<close>

definition answering_service :: completion where
  "answering_service req = Content ''The document limits the warranty.''"

definition other_answering_service :: completion where
  "other_answering_service req = Content ''  No risk at all.  ''"

text \<open>Records for the compliance checker: two that are not flagged, and four that are.\<close>

definition unflagged_clauses :: "clause_record list" where
  "unflagged_clauses =
     [\<lparr>clause = Some ''The Buyer shall pay within 30 days.'', analysis = Some ''Payment term.'',
       has_warranty_terms = Some False, grantie_analysis = None\<rparr>,
      \<lparr>clause = Some ''Warranty of title.'', analysis = None,
       has_warranty_terms = None, grantie_analysis = None\<rparr>]"

definition warranty_clause :: "string \<Rightarrow> clause_record" where
  "warranty_clause s =
     \<lparr>clause = Some s, analysis = Some ''Explained.'', has_warranty_terms = Some True,
      grantie_analysis = Some ''Warranty explained.''\<rparr>"

definition four_flagged_clauses :: "clause_record list" where
  "four_flagged_clauses =
     [warranty_clause ''The Seller gives a WARRANTY on parts.'',
      warranty_clause ''Warranty period: 12 months.'',
      warranty_clause ''The Seller disclaims liability.'',
      warranty_clause ''All goods are sold as-is.'']"

text \<open>A speech service that accepts every request.\<close>

definition accepting_speech_service :: speech_service where
  "accepting_speech_service req = \<lparr>status_code = 200, response_text = []\<rparr>"

section \<open>Facts about the string operations\<close>

lemma py_in_iff_sublist: "py_in kw s = sublist kw s"
proof (induction s)
  case Nil
  show ?case by simp
next
  case (Cons c s)
  show ?case using Cons.IH by (simp add: sublist_Cons_right)
qed

lemma py_in_iff_parts: "py_in kw s = (\<exists>pre post. s = pre @ kw @ post)"
  by (simp add: py_in_iff_sublist sublist_def)

lemma map_eq_three_parts:
  "(map f xs = p @ k @ q) =
     (\<exists>pre mid post. xs = pre @ mid @ post \<and> map f pre = p \<and> map f mid = k \<and> map f post = q)"
proof
  assume "map f xs = p @ k @ q"
  then obtain pre rest where r: "xs = pre @ rest \<and> p = map f pre \<and> k @ q = map f rest"
    unfolding map_eq_append_conv by blast
  then have "map f rest = k @ q" by simp
  then obtain mid post where m: "rest = mid @ post \<and> k = map f mid \<and> q = map f post"
    unfolding map_eq_append_conv by blast
  have "xs = pre @ mid @ post \<and> map f pre = p \<and> map f mid = k \<and> map f post = q"
    using r m by simp
  then show "\<exists>pre mid post. xs = pre @ mid @ post \<and> map f pre = p \<and> map f mid = k \<and> map f post = q"
    by blast
next
  assume "\<exists>pre mid post. xs = pre @ mid @ post \<and> map f pre = p \<and> map f mid = k \<and> map f post = q"
  then obtain pre mid post where
    "xs = pre @ mid @ post \<and> map f pre = p \<and> map f mid = k \<and> map f post = q"
    by blast
  then show "map f xs = p @ k @ q" by auto
qed

lemma py_in_lower_iff:
  "py_in kw (lower txt) = (\<exists>pre mid post. txt = pre @ mid @ post \<and> lower mid = kw)"
proof -
  have "py_in kw (lower txt) = (\<exists>p q. map lower_char txt = p @ kw @ q)"
    by (simp add: py_in_iff_parts lower_def)
  also have "\<dots> = (\<exists>pre mid post. txt = pre @ mid @ post \<and> map lower_char mid = kw)"
    unfolding map_eq_three_parts by blast
  finally show ?thesis by (simp add: lower_def)
qed

lemma occurs_ci_code [code]: "occurs_ci kw txt = py_in (lower kw) (lower txt)"
  by (simp add: occurs_ci_def py_in_lower_iff)

lemma any_in_iff: "any_in kws s = (\<exists>kw \<in> set kws. py_in kw s)"
  by (simp add: any_in_def list_ex_iff)

lemma map_fixed_point: "map f xs = xs \<Longrightarrow> x \<in> set xs \<Longrightarrow> f x = x"
  by (induction xs) auto

lemma any_in_lower_occurs:
  assumes "map lower kws = kws"
  shows "any_in kws (lower txt) = (\<exists>kw \<in> set kws. occurs_ci kw txt)"
proof -
  have "py_in kw (lower txt) = occurs_ci kw txt" if "kw \<in> set kws" for kw
    using map_fixed_point [OF assms that] by (simp add: occurs_ci_code)
  then show ?thesis
    unfolding any_in_iff by blast
qed

section \<open>Facts about the pipeline\<close>

lemma analyze_clauses_invariant:
  "analyze_clauses key service n cs acc = Inr rs \<Longrightarrow> \<forall>r \<in> set acc. record_shape r
     \<Longrightarrow> \<forall>r \<in> set rs. record_shape r"
proof (induction cs arbitrary: n acc)
  case Nil
  then show ?case by simp
next
  case (Cons c cs)
  show ?case
  proof (cases "length (strip c) < 10")
    case True
    with Cons.prems Cons.IH [of n acc] show ?thesis by simp
  next
    case False
    then obtain a where a: "analyze_clause_with_openai key (service n) c = Inr a"
      using Cons.prems(1) by (cases "analyze_clause_with_openai key (service n) c") auto
    show ?thesis
    proof (cases "has_warranty_terms_of c")
      case True
      let ?r = "\<lparr>clause = Some c, analysis = Some a, has_warranty_terms = Some True,
                 grantie_analysis = Some (analyze_clause_for_grantie key (service (n + 1)) c)\<rparr>"
      have "analyze_clauses key service (n + 2) cs (acc @ [?r]) = Inr rs"
        using Cons.prems(1) False a True by simp
      moreover have "\<forall>r \<in> set (acc @ [?r]). record_shape r"
        using Cons.prems(2) True by (simp add: record_shape_def)
      ultimately show ?thesis by (rule Cons.IH)
    next
      case nf: False
      let ?r = "\<lparr>clause = Some c, analysis = Some a, has_warranty_terms = Some False,
                 grantie_analysis = None\<rparr>"
      have "analyze_clauses key service (n + 1) cs (acc @ [?r]) = Inr rs"
        using Cons.prems(1) False a nf by simp
      moreover have "\<forall>r \<in> set (acc @ [?r]). record_shape r"
        using Cons.prems(2) nf by (simp add: record_shape_def)
      ultimately show ?thesis by (rule Cons.IH)
    qed
  qed
qed

lemma error_clause_not_flagged: "\<not> has_warranty_terms_of ''Error processing document''"
  by code_simp

lemma error_result_invariant: "\<forall>r \<in> set (error_result e). record_shape r"
  by (simp add: error_result_def record_shape_def error_clause_not_flagged)

lemma analyze_uploaded_file_records:
  "\<forall>r \<in> set (analyze_uploaded_file env filename file_content). record_shape r"
proof (cases "tmp_error env")
  case (Some e)
  then show ?thesis by (simp add: analyze_uploaded_file_def error_result_invariant)
next
  case None
  show ?thesis
  proof (cases "extract_clauses_from_docx (Document env file_content)")
    case (Inl e)
    with None show ?thesis by (simp add: analyze_uploaded_file_def error_result_invariant)
  next
    case (Inr clauses)
    show ?thesis
    proof (cases "analyze_clauses (api_key env) (ChatCompletion env) 0 clauses []")
      case (Inl e)
      with None Inr show ?thesis
        by (simp add: analyze_uploaded_file_def error_result_invariant)
    next
      case rs: (Inr results)
      have "\<forall>r \<in> set results. record_shape r"
        using analyze_clauses_invariant [OF rs] by simp
      with None Inr rs show ?thesis
        by (simp add: analyze_uploaded_file_def error_result_invariant)
    qed
  qed
qed


lemma analyze_clauses_skip:
  "\<forall>c \<in> set cs. length (strip c) < 10 \<Longrightarrow> analyze_clauses key service n cs acc = Inr acc"
  by (induction cs) auto

lemma analyze_clauses_no_key:
  "\<not> key_configured key \<Longrightarrow> survivors cs \<noteq> [] \<Longrightarrow>
     analyze_clauses key service n cs acc =
       Inl ''OpenAI API key not configured. Please check your .env file.''"
  by (induction cs) (auto simp: survivors_def analyze_clause_with_openai_def)

lemma analyze_clauses_split:
  "analyze_clauses key service n (xs @ ys) acc =
     (case analyze_clauses key service n xs acc of
        Inl e \<Rightarrow> Inl e
      | Inr acc' \<Rightarrow> analyze_clauses key service (n + service_calls xs) ys acc')"
proof (induction xs arbitrary: n acc)
  case Nil
  show ?case by simp
next
  case (Cons c xs)
  show ?case
  proof (cases "length (strip c) < 10")
    case True
    then show ?thesis using Cons.IH [of n acc] by (simp split: sum.splits)
  next
    case False
    show ?thesis
    proof (cases "analyze_clause_with_openai key (service n) c")
      case (Inl e)
      with False show ?thesis by simp
    next
      case (Inr a)
      show ?thesis
      proof (cases "has_warranty_terms_of c")
        case True
        with False Inr show ?thesis
          using Cons.IH [of "n + 2"] by (simp add: add.assoc split: sum.splits)
      next
        case nf: False
        with False Inr show ?thesis
          using Cons.IH [of "n + 1"] by (simp add: add.assoc split: sum.splits)
      qed
    qed
  qed
qed

lemma analyze_clauses_configured:
  assumes "key_configured key"
  shows "\<exists>rs. analyze_clauses key service n cs acc = Inr (acc @ rs)
           \<and> map clause rs = map Some (survivors cs)"
proof (induction cs arbitrary: n acc)
  case Nil
  show ?case by (simp add: survivors_def)
next
  case (Cons c cs)
  show ?case
  proof (cases "length (strip c) < 10")
    case True
    then show ?thesis using Cons.IH [of n acc] by (simp add: survivors_def)
  next
    case False
    obtain a where a: "analyze_clause_with_openai key (service n) c = Inr a"
      using assms by (simp add: analyze_clause_with_openai_def)
    show ?thesis
    proof (cases "has_warranty_terms_of c")
      case True
      let ?r = "\<lparr>clause = Some c, analysis = Some a, has_warranty_terms = Some True,
                 grantie_analysis = Some (analyze_clause_for_grantie key (service (n + 1)) c)\<rparr>"
      obtain rs where rs: "analyze_clauses key service (n + 2) cs (acc @ [?r]) = Inr ((acc @ [?r]) @ rs)"
          "map clause rs = map Some (survivors cs)"
        using Cons.IH [of "n + 2" "acc @ [?r]"] by blast
      have "analyze_clauses key service n (c # cs) acc = Inr (acc @ (?r # rs))"
        using False a True rs(1) by simp
      moreover have "map clause (?r # rs) = map Some (survivors (c # cs))"
        using False rs(2) by (simp add: survivors_def)
      ultimately show ?thesis by blast
    next
      case nf: False
      let ?r = "\<lparr>clause = Some c, analysis = Some a, has_warranty_terms = Some False,
                 grantie_analysis = None\<rparr>"
      obtain rs where rs: "analyze_clauses key service (n + 1) cs (acc @ [?r]) = Inr ((acc @ [?r]) @ rs)"
          "map clause rs = map Some (survivors cs)"
        using Cons.IH [of "n + 1" "acc @ [?r]"] by blast
      have "analyze_clauses key service n (c # cs) acc = Inr (acc @ (?r # rs))"
        using False a nf rs(1) by simp
      moreover have "map clause (?r # rs) = map Some (survivors (c # cs))"
        using False rs(2) by (simp add: survivors_def)
      ultimately show ?thesis by blast
    qed
  qed
qed

lemma failure_message_prefix:
  assumes "key_configured key" "class_of (create (explain_request c)) \<noteq> Success"
  shows "\<exists>msg. analyze_clause_with_openai key create c = Inr msg
           \<and> prefix (class_prefix (class_of (create (explain_request c)))) msg
           \<and> (\<forall>k. k \<noteq> Success \<and> k \<noteq> class_of (create (explain_request c))
                  \<longrightarrow> \<not> prefix (class_prefix k) msg)"
proof (cases "create (explain_request c)")
  case (Content r)
  with assms(2) show ?thesis by simp
next
  case (AuthenticationError e)
  have "\<not> prefix (class_prefix k) ''Error: Invalid OpenAI API key. Please check your .env file.''"
    if "k \<noteq> Success" "k \<noteq> Authentication" for k
    using that by (cases k) simp_all
  then show ?thesis
    using assms(1) AuthenticationError by (simp add: analyze_clause_with_openai_def)
next
  case (RateLimitError e)
  have "\<not> prefix (class_prefix k)
      ''Error: OpenAI rate limit exceeded. Please try again later or check your account balance.''"
    if "k \<noteq> Success" "k \<noteq> RateLimit" for k
    using that by (cases k) simp_all
  then show ?thesis
    using assms(1) RateLimitError by (simp add: analyze_clause_with_openai_def)
next
  case (APIError e)
  have "\<not> prefix (class_prefix k) (''Error: OpenAI API error - '' @ e)"
    if "k \<noteq> Success" "k \<noteq> ApiFailure" for k
    using that by (cases k) simp_all
  then show ?thesis
    using assms(1) APIError by (simp add: analyze_clause_with_openai_def)
next
  case (OtherError e)
  have "\<not> prefix (class_prefix k) (''Error analyzing clause: '' @ e)"
    if "k \<noteq> Success" "k \<noteq> Other" for k
    using that by (cases k) simp_all
  then show ?thesis
    using assms(1) OtherError by (simp add: analyze_clause_with_openai_def)
qed

lemma never_raises_configured:
  "key_configured key \<Longrightarrow> \<exists>msg. analyze_clause_with_openai key create c = Inr msg"
  by (simp add: analyze_clause_with_openai_def)

lemma batch_survives_authentication_failure:
  assumes tmp: "tmp_error env = None"
    and ext: "extract_clauses_from_docx (Document env file_content) = Inr (pre @ c # post)"
    and key: "key_configured (api_key env)"
    and long: "\<not> length (strip c) < 10"
    and auth: "ChatCompletion env (service_calls pre) (explain_request c) = AuthenticationError e"
  shows "\<exists>rs1 r rs2. analyze_uploaded_file env filename file_content = rs1 @ r # rs2
           \<and> map clause rs1 = map Some (survivors pre)
           \<and> clause r = Some c
           \<and> analysis r = Some ''Error: Invalid OpenAI API key. Please check your .env file.''
           \<and> map clause rs2 = map Some (survivors post)"
proof -
  let ?key = "api_key env" and ?svc = "ChatCompletion env"
  let ?msg = "''Error: Invalid OpenAI API key. Please check your .env file.''"
  obtain rs1 where rs1: "analyze_clauses ?key ?svc 0 pre [] = Inr rs1"
      "map clause rs1 = map Some (survivors pre)"
    using analyze_clauses_configured [OF key, of ?svc 0 pre "[]"] by auto
  have a: "analyze_clause_with_openai ?key (?svc (service_calls pre)) c = Inr ?msg"
    using key auth by (simp add: analyze_clause_with_openai_def)
  define r where "r = \<lparr>clause = Some c, analysis = Some ?msg,
      has_warranty_terms = Some (has_warranty_terms_of c),
      grantie_analysis = (if has_warranty_terms_of c
        then Some (analyze_clause_for_grantie ?key (?svc (service_calls pre + 1)) c) else None)\<rparr>"
  define m where "m = service_calls pre + (if has_warranty_terms_of c then 2 else 1)"
  have step: "analyze_clauses ?key ?svc (service_calls pre) (c # post) rs1
      = analyze_clauses ?key ?svc m post (rs1 @ [r])"
    using long a by (simp add: r_def m_def)
  obtain rs2 where rs2: "analyze_clauses ?key ?svc m post (rs1 @ [r]) = Inr ((rs1 @ [r]) @ rs2)"
      "map clause rs2 = map Some (survivors post)"
    using analyze_clauses_configured [OF key, of ?svc m post "rs1 @ [r]"] by auto
  have "analyze_clauses ?key ?svc 0 (pre @ c # post) [] = Inr (rs1 @ r # rs2)"
    using analyze_clauses_split [of ?key ?svc 0 pre "c # post" "[]"] rs1(1) step rs2(1)
    by simp
  then have "analyze_uploaded_file env filename file_content = rs1 @ r # rs2"
    using tmp ext by (simp add: analyze_uploaded_file_def)
  moreover have "clause r = Some c" "analysis r = Some ?msg"
    by (simp_all add: r_def)
  ultimately show ?thesis using rs1(2) rs2(2) by blast
qed

section \<open>Facts about the risk tier\<close>

lemma lower_risk_keywords:
  "map lower high_risk_keywords = high_risk_keywords"
  "map lower medium_risk_keywords = medium_risk_keywords"
  by (simp_all add: high_risk_keywords_def medium_risk_keywords_def lower_def lower_char_def)

lemma risk_level_of_occurs:
  "risk_level_of txt =
     (if \<exists>kw \<in> set high_risk_keywords. occurs_ci kw txt then ''High''
      else if \<exists>kw \<in> set medium_risk_keywords. occurs_ci kw txt then ''Medium''
      else ''Low'')"
  unfolding risk_level_of_def
  by (simp only: any_in_lower_occurs [OF lower_risk_keywords(1)]
      any_in_lower_occurs [OF lower_risk_keywords(2)])

section \<open>Facts about the compliance checker\<close>

lemma not_flagged_iff: "(\<not> flagged c) = (has_warranty_terms c \<noteq> Some True)"
  by (cases "has_warranty_terms c") (simp_all add: flagged_def)

lemma compliance_loop_recommendations:
  "snd (compliance_loop cs issues recs) = recs @ concat (map clause_recommendations cs)"
proof (induction cs arbitrary: issues recs)
  case Nil
  show ?case by simp
next
  case (Cons c cs)
  show ?case
    by (simp add: Let_def Cons.IH clause_recommendations_def)
qed

lemma consistency_not_per_clause:
  "consistency_recommendation \<notin> set (concat (map clause_recommendations cs))"
  by (induction cs)
     (simp_all add: clause_recommendations_def consistency_recommendation_def
        time_limit_recommendation_def)

lemma recommendations_flagged:
  assumes "filter flagged clauses \<noteq> []"
  shows "recommendations (check_warranty_compliance clauses) =
           concat (map clause_recommendations (filter flagged clauses))
           @ (if 3 < length (filter flagged clauses) then [consistency_recommendation] else [])"
proof -
  obtain issues recs where loop: "compliance_loop (filter flagged clauses) [] [] = (issues, recs)"
    by (cases "compliance_loop (filter flagged clauses) [] []")
  have "recs = concat (map clause_recommendations (filter flagged clauses))"
    using compliance_loop_recommendations [of "filter flagged clauses" "[]" "[]"] loop by simp
  then show ?thesis
    using assms loop by (simp add: check_warranty_compliance_def Let_def)
qed

section \<open>Claims\<close>

text \<open>
  C5. The triage flag is a function of the clause text alone: it is true exactly when one of
  the keywords warrant, guarantee, assure, promise, liability, disclaim, as-is occurs in the
  clause as a case-insensitive substring. The clause
  "Seller disclaims all warranties; goods sold as-is." is flagged. In every record the
  pipeline returns, \<open>has_warranty_terms\<close> is this function of the record's clause text.
\<close>

theorem triage_keyword_match:
  "has_warranty_terms_of txt =
     (\<exists>kw \<in> set [''warrant'', ''guarantee'', ''assure'', ''promise'', ''liability'',
                   ''disclaim'', ''as-is''].
        \<exists>pre mid post. txt = pre @ mid @ post \<and> lower mid = kw)
   \<and> has_warranty_terms_of ''Seller disclaims all warranties; goods sold as-is.''
   \<and> (\<forall>r \<in> set (analyze_uploaded_file env filename file_content).
         \<exists>c. clause r = Some c \<and> has_warranty_terms r = Some (has_warranty_terms_of c))"
proof (intro conjI ballI)
  show "has_warranty_terms_of txt =
     (\<exists>kw \<in> set [''warrant'', ''guarantee'', ''assure'', ''promise'', ''liability'',
                   ''disclaim'', ''as-is''].
        \<exists>pre mid post. txt = pre @ mid @ post \<and> lower mid = kw)"
    unfolding has_warranty_terms_of_def warranty_keywords_def any_in_iff py_in_lower_iff ..
  show "has_warranty_terms_of ''Seller disclaims all warranties; goods sold as-is.''"
    by code_simp
  fix r
  assume "r \<in> set (analyze_uploaded_file env filename file_content)"
  then have "record_shape r"
    using analyze_uploaded_file_records by blast
  then show "\<exists>c. clause r = Some c \<and> has_warranty_terms r = Some (has_warranty_terms_of c)"
    by (auto simp: record_shape_def split: option.splits)
qed

theorem triage_keyword_match_witness:
  "(\<exists>kw \<in> set [''warrant'', ''guarantee'', ''assure'', ''promise'', ''liability'',
                 ''disclaim'', ''as-is''].
      \<exists>pre mid post. ''The Vendor GUARANTEES delivery.'' = pre @ mid @ post \<and> lower mid = kw)
   \<and> (\<exists>c. clause (hd (analyze_uploaded_file sample_env ''contract.docx'' ''bytes'')) = Some c
          \<and> has_warranty_terms (hd (analyze_uploaded_file sample_env ''contract.docx'' ''bytes''))
              = Some (has_warranty_terms_of c))"
proof -
  note triage = triage_keyword_match [of "''The Vendor GUARANTEES delivery.''" sample_env
      "''contract.docx''" "''bytes''"]
  have flagged: "has_warranty_terms_of ''The Vendor GUARANTEES delivery.''"
    by code_simp
  have "length (analyze_uploaded_file sample_env ''contract.docx'' ''bytes'') = 2"
    by code_simp
  then have "analyze_uploaded_file sample_env ''contract.docx'' ''bytes'' \<noteq> []"
    by auto
  then have member: "hd (analyze_uploaded_file sample_env ''contract.docx'' ''bytes'')
      \<in> set (analyze_uploaded_file sample_env ''contract.docx'' ''bytes'')"
    by (rule hd_in_set)
  have first: "\<exists>kw \<in> set [''warrant'', ''guarantee'', ''assure'', ''promise'', ''liability'',
                 ''disclaim'', ''as-is''].
      \<exists>pre mid post. ''The Vendor GUARANTEES delivery.'' = pre @ mid @ post \<and> lower mid = kw"
    by (rule iffD1 [OF conjunct1 [OF triage] flagged])
  have second: "\<exists>c. clause (hd (analyze_uploaded_file sample_env ''contract.docx'' ''bytes'')) = Some c
          \<and> has_warranty_terms (hd (analyze_uploaded_file sample_env ''contract.docx'' ''bytes''))
              = Some (has_warranty_terms_of c)"
    by (rule bspec [OF conjunct2 [OF conjunct2 [OF triage]] member])
  from first second show ?thesis ..
qed

text \<open>
  C1. In every record of every list that \<open>analyze_uploaded_file\<close> returns, the key
  \<open>grantie_analysis\<close> is present if and only if \<open>has_warranty_terms\<close> is true.
\<close>

theorem grantie_analysis_iff_flag:
  "\<forall>r \<in> set (analyze_uploaded_file env filename file_content).
     (grantie_analysis r \<noteq> None) = (has_warranty_terms r = Some True)"
proof
  fix r
  assume "r \<in> set (analyze_uploaded_file env filename file_content)"
  then have "record_shape r"
    using analyze_uploaded_file_records by blast
  then show "(grantie_analysis r \<noteq> None) = (has_warranty_terms r = Some True)"
    by (auto simp: record_shape_def split: option.splits)
qed

theorem grantie_analysis_iff_flag_witness:
  "analyze_uploaded_file sample_env ''contract.docx'' ''bytes'' \<noteq> []
   \<and> has_warranty_terms (hd (analyze_uploaded_file sample_env ''contract.docx'' ''bytes''))
        = Some True
   \<and> grantie_analysis (hd (analyze_uploaded_file sample_env ''contract.docx'' ''bytes''))
        \<noteq> None
   \<and> has_warranty_terms (last (analyze_uploaded_file sample_env ''contract.docx'' ''bytes''))
        = Some False
   \<and> grantie_analysis (last (analyze_uploaded_file sample_env ''contract.docx'' ''bytes''))
        = None"
proof -
  let ?rs = "analyze_uploaded_file sample_env ''contract.docx'' ''bytes''"
  have len: "length ?rs = 2"
    by code_simp
  then have ne: "?rs \<noteq> []"
    by auto
  have first: "has_warranty_terms (hd ?rs) = Some True"
    by code_simp
  have final: "has_warranty_terms (last ?rs) = Some False"
    by code_simp
  have "(grantie_analysis (hd ?rs) \<noteq> None) = (has_warranty_terms (hd ?rs) = Some True)"
    using grantie_analysis_iff_flag [of sample_env "''contract.docx''" "''bytes''"] ne
    by (simp add: hd_in_set)
  moreover have "(grantie_analysis (last ?rs) \<noteq> None) = (has_warranty_terms (last ?rs) = Some True)"
    using grantie_analysis_iff_flag [of sample_env "''contract.docx''" "''bytes''"] ne
    by (simp add: last_in_set)
  ultimately show ?thesis
    using ne first final by simp
qed

text \<open>
  C2, as the spec states it: a document none of whose clauses survives the length filter
  makes the pipeline return an error record, never an empty list. The guard of the source
  tests the extracted list before the filter runs, so a document with paragraphs that are
  all short comes back as the empty list.
\<close>

theorem short_document_returns_empty_list:
  "extract_clauses_from_docx (Document short_document_env ''bytes'') = Inr [''Hi'', ''Page 2'']
   \<and> survivors [''Hi'', ''Page 2''] = []
   \<and> analyze_uploaded_file short_document_env ''memo.docx'' ''bytes'' = []"
  by code_simp

text \<open>
  C2, amended: when the upload is stored and parsed and no paragraph has text left after
  stripping, the pipeline returns the single error record "No readable content found in the
  document"; it returns the empty list exactly when there are such paragraphs and none of
  them survives the length filter.
\<close>

theorem empty_document_error:
  assumes "tmp_error env = None"
    and "extract_clauses_from_docx (Document env file_content) = Inr clauses"
  shows "(clauses = [] \<longrightarrow>
           analyze_uploaded_file env filename file_content =
             error_result ''No readable content found in the document'')
       \<and> ((analyze_uploaded_file env filename file_content = []) =
            (clauses \<noteq> [] \<and> survivors clauses = []))"
proof (cases "clauses = []")
  case True
  with assms show ?thesis
    by (simp add: analyze_uploaded_file_def error_result_def)
next
  case False
  show ?thesis
  proof (cases "survivors clauses = []")
    case True
    then have "\<forall>c \<in> set clauses. length (strip c) < 10"
      by (simp add: survivors_def filter_empty_conv)
    then have "analyze_clauses (api_key env) (ChatCompletion env) 0 clauses [] = Inr []"
      by (rule analyze_clauses_skip)
    with assms False True show ?thesis
      by (simp add: analyze_uploaded_file_def)
  next
    case some: False
    have "analyze_uploaded_file env filename file_content \<noteq> []"
    proof (cases "key_configured (api_key env)")
      case True
      obtain rs where rs: "analyze_clauses (api_key env) (ChatCompletion env) 0 clauses [] = Inr rs"
          "map clause rs = map Some (survivors clauses)"
        using analyze_clauses_configured [OF True, of "ChatCompletion env" 0 clauses "[]"] by auto
      from rs(2) some have "rs \<noteq> []" by auto
      with assms False rs(1) show ?thesis
        by (simp add: analyze_uploaded_file_def)
    next
      case nokey: False
      have "analyze_clauses (api_key env) (ChatCompletion env) 0 clauses [] =
          Inl ''OpenAI API key not configured. Please check your .env file.''"
        using nokey some by (rule analyze_clauses_no_key)
      with assms False show ?thesis
        by (simp add: analyze_uploaded_file_def error_result_def)
    qed
    with False some show ?thesis by simp
  qed
qed

theorem empty_document_error_witness:
  "analyze_uploaded_file blank_document_env ''blank.docx'' ''bytes'' =
     error_result ''No readable content found in the document''
   \<and> analyze_uploaded_file blank_document_env ''blank.docx'' ''bytes'' \<noteq> []"
proof -
  have tmp: "tmp_error blank_document_env = None"
    by code_simp
  have ext: "extract_clauses_from_docx (Document blank_document_env ''bytes'') = Inr []"
    by code_simp
  show ?thesis
    using empty_document_error [OF tmp ext, of "''blank.docx''"]
    by (simp add: error_result_def)
qed

text \<open>
  C3, as the spec states it: every document with a surviving clause yields one record per
  surviving clause, in document order. With no API key configured the first call raises and
  the pipeline answers with its single error record, whatever the number of clauses.
\<close>

theorem missing_key_single_record:
  "extract_clauses_from_docx (Document no_key_env ''bytes'') =
     Inr [''The Seller warrants the goods for 12 months.'', ''Page 2'',
          ''The Buyer shall pay within 30 days.'']
   \<and> survivors [''The Seller warrants the goods for 12 months.'', ''Page 2'',
                 ''The Buyer shall pay within 30 days.''] =
       [''The Seller warrants the goods for 12 months.'', ''The Buyer shall pay within 30 days.'']
   \<and> analyze_uploaded_file no_key_env ''contract.docx'' ''bytes'' =
       [\<lparr>clause = Some ''Error processing document'',
         analysis = Some ''Failed to analyze document: OpenAI API key not configured. Please check your .env file.'',
         has_warranty_terms = Some False, grantie_analysis = None\<rparr>]"
  by code_simp

text \<open>
  C3, amended: for every document with at least one clause surviving the length filter, when
  the upload is stored and parsed and an API key is configured, the result holds exactly one
  record per surviving clause, in the order of the document.
\<close>

theorem one_record_per_surviving_clause:
  assumes "tmp_error env = None"
    and "extract_clauses_from_docx (Document env file_content) = Inr clauses"
    and "key_configured (api_key env)"
    and "survivors clauses \<noteq> []"
  shows "map clause (analyze_uploaded_file env filename file_content) = map Some (survivors clauses)
       \<and> length (analyze_uploaded_file env filename file_content) = length (survivors clauses)"
proof -
  obtain rs where rs: "analyze_clauses (api_key env) (ChatCompletion env) 0 clauses [] = Inr rs"
      "map clause rs = map Some (survivors clauses)"
    using analyze_clauses_configured [OF assms(3), of "ChatCompletion env" 0 clauses "[]"] by auto
  have "clauses \<noteq> []"
    using assms(4) by (auto simp: survivors_def)
  then have res: "analyze_uploaded_file env filename file_content = rs"
    using assms(1,2) rs(1) by (simp add: analyze_uploaded_file_def)
  have "length (map clause rs) = length (map Some (survivors clauses))"
    using rs(2) by simp
  then have "length rs = length (survivors clauses)"
    by simp
  with res rs(2) show ?thesis by simp
qed

theorem one_record_per_surviving_clause_witness:
  "map clause (analyze_uploaded_file sample_env ''contract.docx'' ''bytes'') =
     [Some ''The Seller warrants the goods for 12 months.'',
      Some ''The Buyer shall pay within 30 days.'']
   \<and> length (analyze_uploaded_file sample_env ''contract.docx'' ''bytes'') = 2"
proof -
  have tmp: "tmp_error sample_env = None"
    by code_simp
  have ext: "extract_clauses_from_docx (Document sample_env ''bytes'') =
      Inr [''The Seller warrants the goods for 12 months.'', ''Page 2'',
           ''The Buyer shall pay within 30 days.'']"
    by code_simp
  have key: "key_configured (api_key sample_env)"
    by code_simp
  have surv: "survivors [''The Seller warrants the goods for 12 months.'', ''Page 2'',
       ''The Buyer shall pay within 30 days.''] =
      [''The Seller warrants the goods for 12 months.'', ''The Buyer shall pay within 30 days.'']"
    by code_simp
  have some: "survivors [''The Seller warrants the goods for 12 months.'', ''Page 2'',
       ''The Buyer shall pay within 30 days.''] \<noteq> []"
    unfolding surv by simp
  show ?thesis
    using one_record_per_surviving_clause [OF tmp ext key some, of "''contract.docx''"]
    unfolding surv by simp
qed


text \<open>
  C4. A failure of the completion service never makes \<open>analyze_clause_with_openai\<close> raise
  (the service is only called with a key configured): the call returns an error string, and
  the string begins with the prefix of its own failure class and with the prefix of no other
  class. In the pipeline, when the explanation call of one surviving clause is answered with an
  authentication failure, the record of that clause carries the authentication message in
  \<open>analysis\<close>, and the clauses before and after it still get their records.
\<close>

theorem service_failure_absorbed:
  "(key_configured key \<longrightarrow>
      (\<exists>msg. analyze_clause_with_openai key create c = Inr msg
         \<and> (class_of (create (explain_request c)) \<noteq> Success \<longrightarrow>
              prefix (class_prefix (class_of (create (explain_request c)))) msg
              \<and> (\<forall>k. k \<noteq> Success \<and> k \<noteq> class_of (create (explain_request c))
                     \<longrightarrow> \<not> prefix (class_prefix k) msg))))
   \<and> (tmp_error env = None
        \<and> extract_clauses_from_docx (Document env file_content) = Inr (pre @ c # post)
        \<and> key_configured (api_key env)
        \<and> \<not> length (strip c) < 10
        \<and> ChatCompletion env (service_calls pre) (explain_request c) = AuthenticationError e
      \<longrightarrow> (\<exists>rs1 r rs2. analyze_uploaded_file env filename file_content = rs1 @ r # rs2
             \<and> map clause rs1 = map Some (survivors pre)
             \<and> clause r = Some c
             \<and> analysis r = Some ''Error: Invalid OpenAI API key. Please check your .env file.''
             \<and> map clause rs2 = map Some (survivors post)))"
proof (intro conjI impI)
  assume key: "key_configured key"
  show "\<exists>msg. analyze_clause_with_openai key create c = Inr msg
         \<and> (class_of (create (explain_request c)) \<noteq> Success \<longrightarrow>
              prefix (class_prefix (class_of (create (explain_request c)))) msg
              \<and> (\<forall>k. k \<noteq> Success \<and> k \<noteq> class_of (create (explain_request c))
                     \<longrightarrow> \<not> prefix (class_prefix k) msg))"
  proof (cases "class_of (create (explain_request c)) = Success")
    case True
    then show ?thesis using never_raises_configured [OF key] by simp
  next
    case False
    then show ?thesis using failure_message_prefix [of key create c] key by simp
  qed
next
  assume h: "tmp_error env = None
        \<and> extract_clauses_from_docx (Document env file_content) = Inr (pre @ c # post)
        \<and> key_configured (api_key env)
        \<and> \<not> length (strip c) < 10
        \<and> ChatCompletion env (service_calls pre) (explain_request c) = AuthenticationError e"
  show "\<exists>rs1 r rs2. analyze_uploaded_file env filename file_content = rs1 @ r # rs2
             \<and> map clause rs1 = map Some (survivors pre)
             \<and> clause r = Some c
             \<and> analysis r = Some ''Error: Invalid OpenAI API key. Please check your .env file.''
             \<and> map clause rs2 = map Some (survivors post)"
    by (rule batch_survives_authentication_failure) (simp_all add: h)
qed

theorem service_failure_absorbed_witness:
  "(\<exists>msg. analyze_clause_with_openai (Some ''sk-test'') (sample_service 2)
             ''The Buyer shall pay within 30 days.'' = Inr msg
        \<and> prefix ''Error: Invalid OpenAI API key'' msg
        \<and> \<not> prefix ''Error: OpenAI rate limit exceeded'' msg)
   \<and> (\<exists>rs1 r rs2. analyze_uploaded_file sample_env ''contract.docx'' ''bytes'' = rs1 @ r # rs2
        \<and> map clause rs1 = [Some ''The Seller warrants the goods for 12 months.'']
        \<and> clause r = Some ''The Buyer shall pay within 30 days.''
        \<and> analysis r = Some ''Error: Invalid OpenAI API key. Please check your .env file.''
        \<and> map clause rs2 = [])"
proof -
  note absorbed = service_failure_absorbed [where key = "Some ''sk-test''"
      and create = "sample_service 2" and c = "''The Buyer shall pay within 30 days.''"
      and env = sample_env and file_content = "''bytes''"
      and pre = "[''The Seller warrants the goods for 12 months.'', ''Page 2'']"
      and post = "[]" and e = "''Incorrect API key provided''" and filename = "''contract.docx''"]
  have key: "key_configured (Some ''sk-test'')"
    by code_simp
  have cls: "class_of (sample_service 2 (explain_request ''The Buyer shall pay within 30 days.''))
      = Authentication"
    by code_simp
  have tmp: "tmp_error sample_env = None"
    by code_simp
  have ext: "extract_clauses_from_docx (Document sample_env ''bytes'') =
      Inr ([''The Seller warrants the goods for 12 months.'', ''Page 2'']
           @ ''The Buyer shall pay within 30 days.'' # [])"
    by code_simp
  have key': "key_configured (api_key sample_env)"
    by code_simp
  have long: "\<not> length (strip ''The Buyer shall pay within 30 days.'') < 10"
    by code_simp
  have auth: "ChatCompletion sample_env
      (service_calls [''The Seller warrants the goods for 12 months.'', ''Page 2''])
      (explain_request ''The Buyer shall pay within 30 days.'')
      = AuthenticationError ''Incorrect API key provided''"
    by code_simp
  have surv: "survivors [''The Seller warrants the goods for 12 months.'', ''Page 2'']
      = [''The Seller warrants the goods for 12 months.'']" "survivors [] = []"
    by code_simp+
  have first: "\<exists>msg. analyze_clause_with_openai (Some ''sk-test'') (sample_service 2)
             ''The Buyer shall pay within 30 days.'' = Inr msg
        \<and> prefix ''Error: Invalid OpenAI API key'' msg
        \<and> \<not> prefix ''Error: OpenAI rate limit exceeded'' msg"
  proof -
    obtain msg where m: "analyze_clause_with_openai (Some ''sk-test'') (sample_service 2)
             ''The Buyer shall pay within 30 days.'' = Inr msg"
       "prefix (class_prefix Authentication) msg"
       "\<forall>k. k \<noteq> Success \<and> k \<noteq> Authentication \<longrightarrow> \<not> prefix (class_prefix k) msg"
      using conjunct1 [OF absorbed] key cls by auto
    have "\<not> prefix (class_prefix RateLimit) msg"
      using m(3) [rule_format, of RateLimit] by simp
    with m(1,2) show ?thesis by simp
  qed
  have second: "\<exists>rs1 r rs2. analyze_uploaded_file sample_env ''contract.docx'' ''bytes'' = rs1 @ r # rs2
        \<and> map clause rs1 = [Some ''The Seller warrants the goods for 12 months.'']
        \<and> clause r = Some ''The Buyer shall pay within 30 days.''
        \<and> analysis r = Some ''Error: Invalid OpenAI API key. Please check your .env file.''
        \<and> map clause rs2 = []"
    using mp [OF conjunct2 [OF absorbed]] tmp ext key' long auth
    unfolding surv by simp
  from first second show ?thesis ..
qed

text \<open>
  C6. The risk tier is decided in strict precedence: "High" when one of disclaim, as-is,
  no warranty, liability, limitation occurs in the text (case-insensitively), otherwise
  "Medium" when one of limited warranty, conditional, subject to occurs, otherwise "Low"; a
  text with both a High-risk and a Medium-risk term is "High". This is the \<open>risk_level\<close> that
  \<open>analyze_warranties_and_guarantees\<close> returns when the service answers.
\<close>

theorem risk_tier_precedence:
  "risk_level_of doc =
     (if \<exists>kw \<in> set [''disclaim'', ''as-is'', ''no warranty'', ''liability'', ''limitation''].
           occurs_ci kw doc then ''High''
      else if \<exists>kw \<in> set [''limited warranty'', ''conditional'', ''subject to''].
           occurs_ci kw doc then ''Medium''
      else ''Low'')
   \<and> ((\<exists>kw \<in> set [''disclaim'', ''as-is'', ''no warranty'', ''liability'', ''limitation''].
          occurs_ci kw doc)
        \<and> (\<exists>kw \<in> set [''limited warranty'', ''conditional'', ''subject to'']. occurs_ci kw doc)
        \<longrightarrow> risk_level_of doc = ''High'')
   \<and> (create (document_request doc) = Content r \<longrightarrow>
        risk_level (summary (analyze_warranties_and_guarantees create doc)) = risk_level_of doc)"
proof (intro conjI impI)
  show eq: "risk_level_of doc =
     (if \<exists>kw \<in> set [''disclaim'', ''as-is'', ''no warranty'', ''liability'', ''limitation''].
           occurs_ci kw doc then ''High''
      else if \<exists>kw \<in> set [''limited warranty'', ''conditional'', ''subject to''].
           occurs_ci kw doc then ''Medium''
      else ''Low'')"
    using risk_level_of_occurs [of doc]
    unfolding high_risk_keywords_def medium_risk_keywords_def .
  assume "(\<exists>kw \<in> set [''disclaim'', ''as-is'', ''no warranty'', ''liability'', ''limitation''].
          occurs_ci kw doc)
        \<and> (\<exists>kw \<in> set [''limited warranty'', ''conditional'', ''subject to'']. occurs_ci kw doc)"
  then have "\<exists>kw \<in> set high_risk_keywords. occurs_ci kw doc"
    unfolding high_risk_keywords_def by (rule conjunct1)
  then show "risk_level_of doc = ''High''"
    by (simp only: risk_level_of_occurs if_True)
next
  assume "create (document_request doc) = Content r"
  then show "risk_level (summary (analyze_warranties_and_guarantees create doc)) = risk_level_of doc"
    by (simp add: analyze_warranties_and_guarantees_def)
qed

theorem risk_tier_precedence_witness:
  "risk_level_of ''LIMITED WARRANTY. Seller accepts no Liability.'' = ''High''
   \<and> risk_level (summary (analyze_warranties_and_guarantees answering_service
        ''LIMITED WARRANTY. Seller accepts no Liability.'')) = ''High''"
proof -
  note tier = risk_tier_precedence [where doc = "''LIMITED WARRANTY. Seller accepts no Liability.''"
      and create = answering_service and r = "''The document limits the warranty.''"]
  have high: "occurs_ci ''liability'' ''LIMITED WARRANTY. Seller accepts no Liability.''"
    unfolding occurs_ci_code by code_simp
  have medium: "occurs_ci ''limited warranty'' ''LIMITED WARRANTY. Seller accepts no Liability.''"
    unfolding occurs_ci_code by code_simp
  have answer: "answering_service (document_request ''LIMITED WARRANTY. Seller accepts no Liability.'')
      = Content ''The document limits the warranty.''"
    by (simp add: answering_service_def)
  have "\<exists>kw \<in> set [''disclaim'', ''as-is'', ''no warranty'', ''liability'', ''limitation''].
          occurs_ci kw ''LIMITED WARRANTY. Seller accepts no Liability.''"
    using high by simp
  moreover have "\<exists>kw \<in> set [''limited warranty'', ''conditional'', ''subject to''].
          occurs_ci kw ''LIMITED WARRANTY. Seller accepts no Liability.''"
    using medium by simp
  ultimately have "risk_level_of ''LIMITED WARRANTY. Seller accepts no Liability.'' = ''High''"
    using conjunct1 [OF conjunct2 [OF tier]] by blast
  moreover have "risk_level (summary (analyze_warranties_and_guarantees answering_service
        ''LIMITED WARRANTY. Seller accepts no Liability.''))
      = risk_level_of ''LIMITED WARRANTY. Seller accepts no Liability.''"
    using conjunct2 [OF conjunct2 [OF tier]] answer by blast
  ultimately show ?thesis by simp
qed

text \<open>
  C10. On the success path of \<open>analyze_warranties_and_guarantees\<close> the summary
  (\<open>has_warranties\<close>, \<open>has_guarantees\<close>, \<open>risk_level\<close>) depends on the input text alone: two
  successful answers of the service to the same text give the same summary, and the answer
  shows only in the free-text analysis.
\<close>

theorem summary_independent_of_response:
  assumes "create1 (document_request doc) = Content r1"
    and "create2 (document_request doc) = Content r2"
  shows "summary (analyze_warranties_and_guarantees create1 doc) =
           summary (analyze_warranties_and_guarantees create2 doc)
       \<and> analysis_text (analyze_warranties_and_guarantees create1 doc) = strip r1
       \<and> analysis_text (analyze_warranties_and_guarantees create2 doc) = strip r2"
  using assms by (simp add: analyze_warranties_and_guarantees_def)

theorem summary_independent_of_response_witness:
  "summary (analyze_warranties_and_guarantees answering_service ''Goods are sold as-is.'') =
     summary (analyze_warranties_and_guarantees other_answering_service ''Goods are sold as-is.'')
   \<and> analysis_text (analyze_warranties_and_guarantees answering_service ''Goods are sold as-is.'')
       = ''The document limits the warranty.''
   \<and> analysis_text (analyze_warranties_and_guarantees other_answering_service ''Goods are sold as-is.'')
       = ''No risk at all.''"
proof -
  have a1: "answering_service (document_request ''Goods are sold as-is.'')
      = Content ''The document limits the warranty.''"
    by (simp add: answering_service_def)
  have a2: "other_answering_service (document_request ''Goods are sold as-is.'')
      = Content ''  No risk at all.  ''"
    by (simp add: other_answering_service_def)
  have s1: "strip ''The document limits the warranty.'' = ''The document limits the warranty.''"
    by code_simp
  have s2: "strip ''  No risk at all.  '' = ''No risk at all.''"
    by code_simp
  show ?thesis
    using summary_independent_of_response [of answering_service "''Goods are sold as-is.''"
        "''The document limits the warranty.''" other_answering_service "''  No risk at all.  ''"]
      a1 a2
    unfolding s1 s2 by blast
qed

text \<open>
  C7. When no clause of the input has \<open>has_warranty_terms\<close> true, \<open>check_warranty_compliance\<close>
  returns no issue, \<open>total_issues\<close> 0 and exactly one recommendation, the advice to add clear
  warranty terms.
\<close>

theorem no_flagged_clause_report:
  assumes "\<forall>c \<in> set clauses. has_warranty_terms c \<noteq> Some True"
  shows "check_warranty_compliance clauses =
           \<lparr>compliance_issues = [],
            recommendations = [''Consider adding clear warranty terms for transparency''],
            total_issues = 0\<rparr>
       \<and> length (recommendations (check_warranty_compliance clauses)) = 1"
proof -
  have "filter flagged clauses = []"
    using assms by (simp add: filter_empty_conv not_flagged_iff)
  then show ?thesis
    by (simp add: check_warranty_compliance_def)
qed

theorem no_flagged_clause_report_witness:
  "check_warranty_compliance unflagged_clauses =
     \<lparr>compliance_issues = [],
      recommendations = [''Consider adding clear warranty terms for transparency''],
      total_issues = 0\<rparr>
   \<and> length (recommendations (check_warranty_compliance unflagged_clauses)) = 1"
proof -
  have "\<forall>c \<in> set unflagged_clauses. has_warranty_terms c \<noteq> Some True"
    by (simp add: unflagged_clauses_def)
  then show ?thesis
    by (rule no_flagged_clause_report)
qed

text \<open>
  C8. With more than three flagged clauses the recommendations of \<open>check_warranty_compliance\<close>
  are the per-clause recommendations, in clause order, followed by the consistency
  recommendation, which occurs exactly once; with three flagged clauses or fewer the
  consistency recommendation does not occur.
\<close>

theorem consistency_recommendation_last:
  "(3 < length (filter flagged clauses) \<longrightarrow>
      recommendations (check_warranty_compliance clauses) =
        concat (map clause_recommendations (filter flagged clauses)) @ [consistency_recommendation]
      \<and> count_list (recommendations (check_warranty_compliance clauses))
            consistency_recommendation = 1)
   \<and> (length (filter flagged clauses) \<le> 3 \<longrightarrow>
        consistency_recommendation \<notin> set (recommendations (check_warranty_compliance clauses)))"
proof (intro conjI impI)
  assume many: "3 < length (filter flagged clauses)"
  then have ne: "filter flagged clauses \<noteq> []" by auto
  show eq: "recommendations (check_warranty_compliance clauses) =
        concat (map clause_recommendations (filter flagged clauses)) @ [consistency_recommendation]"
    using recommendations_flagged [OF ne] many by simp
  show "count_list (recommendations (check_warranty_compliance clauses))
            consistency_recommendation = 1"
    unfolding eq using consistency_not_per_clause [of "filter flagged clauses"] by simp
next
  assume few: "length (filter flagged clauses) \<le> 3"
  show "consistency_recommendation \<notin> set (recommendations (check_warranty_compliance clauses))"
  proof (cases "filter flagged clauses = []")
    case True
    then show ?thesis
      by (simp add: check_warranty_compliance_def consistency_recommendation_def)
  next
    case False
    show ?thesis
      using recommendations_flagged [OF False] few
        consistency_not_per_clause [of "filter flagged clauses"] by simp
  qed
qed

theorem consistency_recommendation_last_witness:
  "recommendations (check_warranty_compliance four_flagged_clauses) =
     [''Consider adding specific time limits for warranty coverage'',
      ''Multiple warranty clauses found - ensure consistency across all terms'']
   \<and> count_list (recommendations (check_warranty_compliance four_flagged_clauses))
        consistency_recommendation = 1
   \<and> consistency_recommendation \<notin>
        set (recommendations (check_warranty_compliance (take 3 four_flagged_clauses)))"
proof -
  have four: "filter flagged four_flagged_clauses = four_flagged_clauses"
    by (simp add: four_flagged_clauses_def warranty_clause_def flagged_def)
  have three: "length (filter flagged (take 3 four_flagged_clauses)) \<le> 3"
    by (simp add: four_flagged_clauses_def warranty_clause_def flagged_def)
  have many: "3 < length (filter flagged four_flagged_clauses)"
    unfolding four by (simp add: four_flagged_clauses_def)
  have per_clause: "concat (map clause_recommendations four_flagged_clauses) =
      [''Consider adding specific time limits for warranty coverage'']"
    by code_simp
  have cons: "consistency_recommendation =
      ''Multiple warranty clauses found - ensure consistency across all terms''"
    by (simp add: consistency_recommendation_def)
  have a: "recommendations (check_warranty_compliance four_flagged_clauses) =
        concat (map clause_recommendations (filter flagged four_flagged_clauses))
          @ [consistency_recommendation]
      \<and> count_list (recommendations (check_warranty_compliance four_flagged_clauses))
            consistency_recommendation = 1"
    using conjunct1 [OF consistency_recommendation_last [of four_flagged_clauses]] many
    by blast
  have b: "consistency_recommendation \<notin>
        set (recommendations (check_warranty_compliance (take 3 four_flagged_clauses)))"
    using conjunct2 [OF consistency_recommendation_last [of "take 3 four_flagged_clauses"]] three
    by blast
  from a have "recommendations (check_warranty_compliance four_flagged_clauses) =
     [''Consider adding specific time limits for warranty coverage'',
      ''Multiple warranty clauses found - ensure consistency across all terms'']"
    unfolding four per_clause cons by simp
  with a b show ?thesis by blast
qed

text \<open>
  C9, as the spec states it: the text of every request to \<open>POST /speak/\<close> is cut to 500
  characters before it goes to the speech service. The endpoint hands the text it receives to
  \<open>text_to_speech\<close> as it is; a request with 501 characters reaches the service with 501.
\<close>

theorem speak_endpoint_sends_untruncated:
  "map (length \<circ> request_text)
     (snd (text_to_speech_endpoint (Some ''el-key'') accepting_speech_service
        (Inr ''/tmp/speech.mp3'') (Some (replicate 501 CHR ''a'')))) = [501]"
  by (simp add: text_to_speech_endpoint_def text_to_speech_def accepting_speech_service_def
      Let_def)

text \<open>
  C9, amended: the cut to 500 characters is made by the frontend. Every request that
  \<open>play_audio\<close> causes carries the first 500 characters of its text, so at most 500; the
  endpoint forwards the text of its payload unchanged.
\<close>

theorem speech_text_truncated_by_frontend:
  "(\<forall>req \<in> set (snd (play_audio elevenlabs_key post tmp_audio s)).
      request_text req = take 500 s \<and> length (request_text req) \<le> 500)
   \<and> (\<forall>req \<in> set (snd (text_to_speech_endpoint elevenlabs_key post tmp_audio (Some t))).
        request_text req = t)"
proof -
  have endpoint: "\<forall>req \<in> set (snd (text_to_speech_endpoint elevenlabs_key post tmp_audio (Some u))).
      request_text req = u" for u
    by (auto simp: text_to_speech_endpoint_def text_to_speech_def Let_def
        split: sum.splits option.splits if_splits prod.splits)
  have "\<forall>req \<in> set (snd (play_audio elevenlabs_key post tmp_audio s)).
      request_text req = take 500 s \<and> length (request_text req) \<le> 500"
    using endpoint [of "take 500 s"] by (simp add: play_audio_def)
  with endpoint [of t] show ?thesis by blast
qed

theorem speech_text_truncated_by_frontend_witness:
  "snd (play_audio (Some ''el-key'') accepting_speech_service (Inr ''/tmp/speech.mp3'')
        (replicate 501 CHR ''a'')) \<noteq> []
   \<and> request_text (hd (snd (play_audio (Some ''el-key'') accepting_speech_service
          (Inr ''/tmp/speech.mp3'') (replicate 501 CHR ''a'')))) = replicate 500 CHR ''a''
   \<and> length (request_text (hd (snd (play_audio (Some ''el-key'') accepting_speech_service
          (Inr ''/tmp/speech.mp3'') (replicate 501 CHR ''a''))))) \<le> 500"
proof -
  let ?sent = "snd (play_audio (Some ''el-key'') accepting_speech_service
      (Inr ''/tmp/speech.mp3'') (replicate 501 CHR ''a''))"
  have ne: "?sent \<noteq> []"
    by (simp add: play_audio_def text_to_speech_endpoint_def text_to_speech_def
        accepting_speech_service_def Let_def)
  then have "hd ?sent \<in> set ?sent"
    by (rule hd_in_set)
  then have "request_text (hd ?sent) = take 500 (replicate 501 CHR ''a'')
      \<and> length (request_text (hd ?sent)) \<le> 500"
    using conjunct1 [OF speech_text_truncated_by_frontend
        [of "Some ''el-key''" accepting_speech_service "Inr ''/tmp/speech.mp3''"
          "replicate 501 CHR ''a''"]]
    by blast
  with ne show ?thesis by simp
qed

end
